theory Spec2Isabelle
  imports Main
begin

section \<open>The poll server of \<open>src/server.js\<close>\<close>

text \<open>
  The server keeps one JSON document under the key \<open>seattle_work_poll\<close> of a remote
  key-value store and serves five HTTP routes that read or rewrite it.  Each route is
  embedded as a function from the state of the outside world to a response and the new
  state; the start-up routine \<open>ensurePollExists\<close> is embedded the same way.

  Boundaries of the embedding.
  \<^item> Documents are typed as the data model has them: strings, lists of strings, counters.
    JSON texts that parse to something of another shape are not represented.
  \<^item> Strings are byte strings.  \<open>String.prototype.toLowerCase\<close> is a parameter of the
    functions that call it, so that what is proved of them holds for the real folding of
    Unicode letters.
  \<^item> A JavaScript number is a double.  Vote counters are naturals, and their increment is
    written out as the double addition does it on integers (\<open>js_increment\<close>).  The
    tally of the read route stays far below \<open>2^53\<close>, a stored text being shorter than
    that, so there the sum is the exact one.
  \<^item> A date string that names a member of \<open>Object.prototype\<close> (\<open>constructor\<close>,
    \<open>toString\<close>, \<open>__proto__\<close>, ...) makes the tally of the read route hold a
    non-numeric value; \<open>inherited_name\<close> lists these names and the theorems about the
    tally exclude them.
\<close>

subsection \<open>Data model\<close>

record UserVote =
  vote_id :: string
  userName :: string
  dates :: "string list"

record LegacyOption =
  label :: string
  votes :: nat

text \<open>\<open>userVotes\<close> is \<open>None\<close> for a document of the older shape, which has no such
  property.\<close>

record PollDocument =
  poll_id :: string
  title :: string
  userVotes :: "UserVote list option"
  options :: "LegacyOption list"

record PopularDate =
  date :: string
  count :: nat

subsection \<open>The store and the outside world\<close>

text \<open>
  The value under the key is a text.  \<open>Json d\<close> is the text \<open>JSON.stringify\<close> gives
  for the document \<open>d\<close>, \<open>Blank\<close> the empty text, and \<open>Malformed\<close> any non-empty text
  that \<open>JSON.parse\<close> rejects.
\<close>

datatype raw = Blank | Malformed | Json PollDocument

datatype effect = Get | Set raw | Emit string

text \<open>
  \<open>stored\<close> is the value under \<open>POLL_KEY\<close> (\<open>None\<close> when the key is unset),
  \<open>faults\<close> tells for each coming call of the store client whether it is rejected
  (no entry: it succeeds), and \<open>trace\<close> lists the calls attempted on the store client
  and the events broadcast so far.
\<close>

record world =
  stored :: "raw option"
  faults :: "bool list"
  trace :: "effect list"

datatype error = StoreError | SyntaxError | TypeError

datatype body =
  Error string
  | Message string
  | Poll PollDocument "PopularDate list option"

type_synonym response = "nat \<times> body"

fun next_fault :: "bool list \<Rightarrow> bool \<times> bool list" where
  "next_fault [] = (False, [])"
| "next_fault (f # fs) = (f, fs)"

definition redisClient_get :: "world \<Rightarrow> (error + raw option) \<times> world" where
  "redisClient_get w =
     (let (f, fs) = next_fault (faults w);
          w' = w\<lparr>faults := fs, trace := trace w @ [Get]\<rparr>
      in if f then (Inl StoreError, w') else (Inr (stored w), w'))"

definition redisClient_set :: "raw \<Rightarrow> world \<Rightarrow> (error + unit) \<times> world" where
  "redisClient_set v w =
     (let (f, fs) = next_fault (faults w);
          w' = w\<lparr>faults := fs, trace := trace w @ [Set v]\<rparr>
      in if f then (Inl StoreError, w') else (Inr (), w'\<lparr>stored := Some v\<rparr>))"

definition io_emit :: "string \<Rightarrow> world \<Rightarrow> world" where
  "io_emit ev w = w\<lparr>trace := trace w @ [Emit ev]\<rparr>"

text \<open>\<open>!data\<close> for the result of a read: the key is unset, or holds the empty text.\<close>

fun absent :: "raw option \<Rightarrow> bool" where
  "absent None = True"
| "absent (Some Blank) = True"
| "absent (Some _) = False"

fun JSON_parse :: "raw option \<Rightarrow> error + PollDocument" where
  "JSON_parse (Some (Json d)) = Inr d"
| "JSON_parse _ = Inl SyntaxError"

definition JSON_stringify :: "PollDocument \<Rightarrow> raw" where
  "JSON_stringify d = Json d"

subsection \<open>Strings and numbers of the host language\<close>

text \<open>
  \<open>String.prototype.toLowerCase\<close> is a built-in of the host language, defined over the
  whole of Unicode.  It is not written out here: every function below that calls it takes
  it as its first parameter, named \<open>toLowerCase\<close>, and the theorems hold for every
  function put in its place.
\<close>

definition digit :: "nat \<Rightarrow> char" where
  "digit n = char_of (48 + n)"

text \<open>\<open>Number.prototype.toString\<close> on a non-negative integer below \<open>10^21\<close>.\<close>

fun toString :: "nat \<Rightarrow> string" where
  "toString n = (if n < 10 then [digit n] else toString (n div 10) @ [digit (n mod 10)])"

declare toString.simps [simp del]

text \<open>\<open>x++\<close> on a number holding a non-negative integer: exact below \<open>2^53\<close>; from
  there on the sum is rounded to the nearest double, ties to the even significand.\<close>

definition js_increment :: "nat \<Rightarrow> nat" where
  "js_increment v =
     (if v < 2 ^ 53 then v + 1
      else if v < 2 ^ 54 \<and> odd (v div 2) then v + 2
      else v)"

text \<open>\<open>Array.prototype.findIndex\<close>: the first index whose element satisfies the
  predicate, \<open>-1\<close> when there is none.\<close>

fun findIndex :: "('a \<Rightarrow> bool) \<Rightarrow> 'a list \<Rightarrow> int" where
  "findIndex P [] = -1"
| "findIndex P (x # xs) =
     (if P x then 0 else (let i = findIndex P xs in if i = -1 then -1 else i + 1))"

text \<open>\<open>xs.splice(i, 1)\<close> for an index inside the array.\<close>

definition splice1 :: "nat \<Rightarrow> 'a list \<Rightarrow> 'a list" where
  "splice1 i xs = take i xs @ drop (Suc i) xs"

text \<open>\<open>Array.prototype.sort\<close> with a comparison function: a stable sort, written as
  insertion from the right.\<close>

fun insert_by :: "('a \<Rightarrow> 'a \<Rightarrow> int) \<Rightarrow> 'a \<Rightarrow> 'a list \<Rightarrow> 'a list" where
  "insert_by cmp x [] = [x]"
| "insert_by cmp x (y # ys) =
     (if cmp x y \<le> 0 then x # y # ys else y # insert_by cmp x ys)"

definition sort_by :: "('a \<Rightarrow> 'a \<Rightarrow> int) \<Rightarrow> 'a list \<Rightarrow> 'a list" where
  "sort_by cmp xs = foldr (insert_by cmp) xs []"

subsection \<open>Property order of a plain object\<close>

text \<open>
  \<open>Object.entries\<close> lists the array-index keys first, by ascending value, then the other
  keys in the order they were created.  An array index is the canonical decimal text of
  an integer below \<open>2^32 - 1\<close>.
\<close>

definition is_digit :: "char \<Rightarrow> bool" where
  "is_digit c = (48 \<le> (of_char c :: nat) \<and> (of_char c :: nat) \<le> 57)"

definition numeric_value :: "string \<Rightarrow> nat" where
  "numeric_value s = foldl (\<lambda>a c. 10 * a + ((of_char c :: nat) - 48)) 0 s"

definition is_array_index :: "string \<Rightarrow> bool" where
  "is_array_index s =
     (s \<noteq> [] \<and> list_all is_digit s \<and> (hd s \<noteq> CHR ''0'' \<or> length s = 1)
      \<and> numeric_value s < 2 ^ 32 - 1)"

definition Object_entries :: "(string \<times> 'v) list \<Rightarrow> (string \<times> 'v) list" where
  "Object_entries kvs =
     sort_key (\<lambda>kv. numeric_value (fst kv)) (filter (\<lambda>kv. is_array_index (fst kv)) kvs)
     @ filter (\<lambda>kv. \<not> is_array_index (fst kv)) kvs"

definition inherited_name :: "string \<Rightarrow> bool" where
  "inherited_name s =
     (s \<in> set [''constructor'', ''toString'', ''toLocaleString'', ''valueOf'',
               ''hasOwnProperty'', ''isPrototypeOf'', ''propertyIsEnumerable'',
               ''__proto__'', ''__defineGetter__'', ''__defineSetter__'',
               ''__lookupGetter__'', ''__lookupSetter__''])"

subsection \<open>Start-up: \<open>ensurePollExists\<close>\<close>

definition initialData :: PollDocument where
  "initialData =
     \<lparr>poll_id = ''seat-22222-3333-4444-555555555555'',
      title = ''Seattle Work Get-Together'',
      userVotes = Some [],
      options = [\<lparr>label = ''2024-04-05'', votes = 0\<rparr>,
                 \<lparr>label = ''2024-04-12'', votes = 0\<rparr>,
                 \<lparr>label = ''2024-04-19'', votes = 0\<rparr>]\<rparr>"

text \<open>The routine has no handler of its own: a rejected store call or a text that does
  not parse ends it with that error.  An array, also the empty one, is truthy, so only
  a document without the property is rewritten.\<close>

definition ensurePollExists :: "world \<Rightarrow> (error + unit) \<times> world" where
  "ensurePollExists w =
     (case redisClient_get w of
        (Inl e, w1) \<Rightarrow> (Inl e, w1)
      | (Inr poll, w1) \<Rightarrow>
          if absent poll then redisClient_set (JSON_stringify initialData) w1
          else (case JSON_parse poll of
                  Inl e \<Rightarrow> (Inl e, w1)
                | Inr pollData \<Rightarrow>
                    (case userVotes pollData of
                       None \<Rightarrow>
                         redisClient_set (JSON_stringify (pollData\<lparr>userVotes := Some []\<rparr>)) w1
                     | Some _ \<Rightarrow> (Inr (), w1))))"

subsection \<open>\<open>GET /poll\<close>\<close>

text \<open>\<open>dateCounts[date] = (dateCounts[date] || 0) + 1\<close> on an object whose keys are kept
  in the order of their creation.\<close>

fun dateCounts_add :: "string \<Rightarrow> (string \<times> nat) list \<Rightarrow> (string \<times> nat) list" where
  "dateCounts_add d [] = [(d, 0 + 1)]"
| "dateCounts_add d ((k, c) # kvs) =
     (if k = d then (k, (if c = 0 then 0 else c) + 1) # kvs
      else (k, c) # dateCounts_add d kvs)"

definition dateCounts :: "UserVote list \<Rightarrow> (string \<times> nat) list" where
  "dateCounts uvs = fold (\<lambda>vote dc. fold dateCounts_add (dates vote) dc) uvs []"

definition by_count_desc :: "PopularDate \<Rightarrow> PopularDate \<Rightarrow> int" where
  "by_count_desc a b = int (count b) - int (count a)"

definition popularDates :: "UserVote list \<Rightarrow> PopularDate list" where
  "popularDates uvs =
     take 5 (sort_by by_count_desc
       (map (\<lambda>(d, c). \<lparr>date = d, count = c\<rparr>) (Object_entries (dateCounts uvs))))"

definition get_poll :: "world \<Rightarrow> response \<times> world" where
  "get_poll w =
     (case redisClient_get w of
        (Inl e, w1) \<Rightarrow> ((500, Error ''Server error fetching poll.''), w1)
      | (Inr data, w1) \<Rightarrow>
          if absent data then ((404, Error ''Poll not found in Redis.''), w1)
          else (case JSON_parse data of
                  Inl e \<Rightarrow> ((500, Error ''Server error fetching poll.''), w1)
                | Inr pollData \<Rightarrow>
                    ((200, Poll pollData
                        (case userVotes pollData of
                           None \<Rightarrow> None
                         | Some uvs \<Rightarrow>
                             if length uvs > 0 then Some (popularDates uvs) else None)),
                     w1)))"

subsection \<open>\<open>POST /poll/user-dates\<close>\<close>

text \<open>The \<open>dates\<close> property of the request body: missing, present but not an array, or
  an array of strings.  \<open>userName\<close> is \<open>None\<close> when the body has no such property.\<close>

datatype dates_arg = NoDates | NotArray | Dates "string list"

fun invalid_submission :: "string option \<Rightarrow> dates_arg \<Rightarrow> bool" where
  "invalid_submission None _ = True"
| "invalid_submission (Some u) NoDates = True"
| "invalid_submission (Some u) NotArray = True"
| "invalid_submission (Some u) (Dates ds) = (u = [] \<or> length ds = 0)"

text \<open>The callback of both searches:
  \<open>(vote) => vote.userName.toLowerCase() === userName.toLowerCase()\<close>.\<close>

definition same_user :: "(string \<Rightarrow> string) \<Rightarrow> string \<Rightarrow> UserVote \<Rightarrow> bool" where
  "same_user toLowerCase name vote = (toLowerCase (userName vote) = toLowerCase name)"

definition submit ::
    "(string \<Rightarrow> string) \<Rightarrow> string \<Rightarrow> string list \<Rightarrow> nat \<Rightarrow> UserVote list \<Rightarrow> UserVote list" where
  "submit toLowerCase name ds now uvs =
     (let existingUserIndex = findIndex (same_user toLowerCase name) uvs
      in if existingUserIndex \<noteq> -1
         then uvs[nat existingUserIndex := (uvs ! nat existingUserIndex)\<lparr>dates := ds\<rparr>]
         else uvs @ [\<lparr>vote_id = toString now, userName = name, dates = ds\<rparr>])"

text \<open>\<open>now\<close> is the value of \<open>Date.now()\<close> when the request is handled.  A document
  without \<open>userVotes\<close> makes \<open>poll.userVotes.findIndex\<close> throw.\<close>

definition post_poll_user_dates ::
    "(string \<Rightarrow> string) \<Rightarrow> string option \<Rightarrow> dates_arg \<Rightarrow> nat \<Rightarrow> world
      \<Rightarrow> response \<times> world" where
  "post_poll_user_dates toLowerCase name_arg dates_arg now w =
     (if invalid_submission name_arg dates_arg
      then ((400, Error ''Invalid submission. Please provide your name and at least one date.''), w)
      else
        (case (name_arg, dates_arg) of
           (Some name, Dates ds) \<Rightarrow>
             (case redisClient_get w of
                (Inl e, w1) \<Rightarrow> ((500, Error ''Server error submitting availability.''), w1)
              | (Inr raw, w1) \<Rightarrow>
                  if absent raw then ((404, Error ''Poll not found.''), w1)
                  else (case JSON_parse raw of
                          Inl e \<Rightarrow> ((500, Error ''Server error submitting availability.''), w1)
                        | Inr poll \<Rightarrow>
                            (case userVotes poll of
                               None \<Rightarrow>
                                 ((500, Error ''Server error submitting availability.''), w1)
                             | Some uvs \<Rightarrow>
                                 (case redisClient_set
                                         (JSON_stringify
                                            (poll\<lparr>userVotes :=
                                                     Some (submit toLowerCase name ds now uvs)\<rparr>))
                                         w1 of
                                    (Inl e, w2) \<Rightarrow>
                                      ((500, Error ''Server error submitting availability.''), w2)
                                  | (Inr u, w2) \<Rightarrow>
                                      ((200, Message ''Availability submitted successfully.''),
                                       io_emit ''pollUpdated'' w2)))))
         | _ \<Rightarrow> ((400, Error ''Invalid submission. Please provide your name and at least one date.''), w)))"

subsection \<open>\<open>DELETE /poll/user-dates/:userName\<close>\<close>

definition delete_poll_user_dates ::
    "(string \<Rightarrow> string) \<Rightarrow> string \<Rightarrow> world \<Rightarrow> response \<times> world" where
  "delete_poll_user_dates toLowerCase name w =
     (if name = [] then ((400, Error ''Invalid request. Please provide a username.''), w)
      else
        (case redisClient_get w of
           (Inl e, w1) \<Rightarrow> ((500, Error ''Server error deleting user dates.''), w1)
         | (Inr raw, w1) \<Rightarrow>
             if absent raw then ((404, Error ''Poll not found.''), w1)
             else (case JSON_parse raw of
                     Inl e \<Rightarrow> ((500, Error ''Server error deleting user dates.''), w1)
                   | Inr poll \<Rightarrow>
                       (case userVotes poll of
                          None \<Rightarrow> ((500, Error ''Server error deleting user dates.''), w1)
                        | Some uvs \<Rightarrow>
                            (let userIndex = findIndex (same_user toLowerCase name) uvs
                             in if userIndex = -1
                                then ((404, Error ''User not found in the poll.''), w1)
                                else
                                  (case redisClient_set
                                          (JSON_stringify
                                             (poll\<lparr>userVotes :=
                                                      Some (splice1 (nat userIndex) uvs)\<rparr>))
                                          w1 of
                                     (Inl e, w2) \<Rightarrow>
                                       ((500, Error ''Server error deleting user dates.''), w2)
                                   | (Inr u, w2) \<Rightarrow>
                                       ((200, Message ''User dates successfully deleted.''),
                                        io_emit ''pollUpdated'' w2)))))))"

subsection \<open>The legacy routes\<close>

fun no_date :: "string option \<Rightarrow> bool" where
  "no_date None = True"
| "no_date (Some d) = (d = [])"

definition post_poll_date :: "string option \<Rightarrow> world \<Rightarrow> response \<times> world" where
  "post_poll_date newDate w =
     (if no_date newDate then ((400, Error ''No date provided.''), w)
      else
        (case newDate of
           None \<Rightarrow> ((400, Error ''No date provided.''), w)
         | Some d \<Rightarrow>
             (case redisClient_get w of
                (Inl e, w1) \<Rightarrow> ((500, Error ''Server error adding date.''), w1)
              | (Inr raw, w1) \<Rightarrow>
                  if absent raw then ((404, Error ''Poll not found.''), w1)
                  else (case JSON_parse raw of
                          Inl e \<Rightarrow> ((500, Error ''Server error adding date.''), w1)
                        | Inr poll \<Rightarrow>
                            (case redisClient_set
                                    (JSON_stringify
                                       (poll\<lparr>options :=
                                                options poll @ [\<lparr>label = d, votes = 0\<rparr>]\<rparr>))
                                    w1 of
                               (Inl e, w2) \<Rightarrow> ((500, Error ''Server error adding date.''), w2)
                             | (Inr u, w2) \<Rightarrow>
                                 ((200, Message ''Date added successfully.''),
                                  io_emit ''pollUpdated'' w2))))))"

text \<open>
  \<open>optionIndex\<close> is \<open>None\<close> when the body has no such property, so that the handler
  reads \<open>undefined\<close>, and \<open>Some i\<close> for an integer.  A comparison with \<open>undefined\<close> is
  false, whichever way it is written.
\<close>

fun invalid_index :: "int option \<Rightarrow> nat \<Rightarrow> bool" where
  "invalid_index None n = False"
| "invalid_index (Some i) n = (i < 0 \<or> i \<ge> int n)"

text \<open>\<open>poll.options[optionIndex].votes++\<close>: an array has no element under
  \<open>undefined\<close> or outside its bounds, and reading \<open>votes\<close> of nothing throws.\<close>

fun vote_at :: "int option \<Rightarrow> LegacyOption list \<Rightarrow> error + LegacyOption list" where
  "vote_at None opts = Inl TypeError"
| "vote_at (Some i) opts =
     (if 0 \<le> i \<and> nat i < length opts
      then Inr (opts[nat i := (opts ! nat i)\<lparr>votes := js_increment (votes (opts ! nat i))\<rparr>])
      else Inl TypeError)"

definition post_poll_vote :: "int option \<Rightarrow> world \<Rightarrow> response \<times> world" where
  "post_poll_vote optionIndex w =
     (case redisClient_get w of
        (Inl e, w1) \<Rightarrow> ((500, Error ''Server error casting vote.''), w1)
      | (Inr raw, w1) \<Rightarrow>
          if absent raw then ((404, Error ''Poll not found.''), w1)
          else (case JSON_parse raw of
                  Inl e \<Rightarrow> ((500, Error ''Server error casting vote.''), w1)
                | Inr poll \<Rightarrow>
                    if invalid_index optionIndex (length (options poll))
                    then ((400, Error ''Invalid option index.''), w1)
                    else (case vote_at optionIndex (options poll) of
                            Inl e \<Rightarrow> ((500, Error ''Server error casting vote.''), w1)
                          | Inr opts \<Rightarrow>
                              (case redisClient_set
                                      (JSON_stringify (poll\<lparr>options := opts\<rparr>)) w1 of
                                 (Inl e, w2) \<Rightarrow>
                                   ((500, Error ''Server error casting vote.''), w2)
                               | (Inr u, w2) \<Rightarrow>
                                   ((200, Message ''Vote registered.''),
                                    io_emit ''pollUpdated'' w2)))))"

subsection \<open>Notions used in the statements\<close>

text \<open>\<open>no_fault n fs\<close>: the next \<open>n\<close> calls of the store client are not rejected.\<close>

fun no_fault :: "nat \<Rightarrow> bool list \<Rightarrow> bool" where
  "no_fault 0 fs = True"
| "no_fault (Suc n) [] = True"
| "no_fault (Suc n) (f # fs) = (\<not> f \<and> no_fault n fs)"

text \<open>The data-model invariant: no two entries of \<open>userVotes\<close> have names that are
  equal up to case.  \<open>store_inv\<close> lifts it to the stored value; a store that holds
  no document, or a document without \<open>userVotes\<close>, has no two such entries.\<close>

definition unique_names :: "(string \<Rightarrow> string) \<Rightarrow> UserVote list \<Rightarrow> bool" where
  "unique_names toLowerCase uvs = distinct (map (\<lambda>v. toLowerCase (userName v)) uvs)"

fun store_inv :: "(string \<Rightarrow> string) \<Rightarrow> raw option \<Rightarrow> bool" where
  "store_inv toLowerCase (Some (Json d)) =
     (case userVotes d of None \<Rightarrow> True | Some uvs \<Rightarrow> unique_names toLowerCase uvs)"
| "store_inv toLowerCase _ = True"

text \<open>
  Two ways of counting a date over the entries.  \<open>voters_for\<close> follows the data model's
  words, the number of entries whose dates contain it; \<open>occurrences\<close> counts every
  position at which it is listed.  \<open>plain_dates\<close>: no listed date names a member of
  \<open>Object.prototype\<close>.
\<close>

definition voters_for :: "string \<Rightarrow> UserVote list \<Rightarrow> nat" where
  "voters_for d uvs = length (filter (\<lambda>v. d \<in> set (dates v)) uvs)"

definition occurrences :: "string \<Rightarrow> UserVote list \<Rightarrow> nat" where
  "occurrences d uvs = count_list (concat (map dates uvs)) d"

definition plain_dates :: "UserVote list \<Rightarrow> bool" where
  "plain_dates uvs = list_all (\<lambda>v. list_all (\<lambda>d. \<not> inherited_name d) (dates v)) uvs"

definition descending :: "PopularDate list \<Rightarrow> bool" where
  "descending pds = sorted_wrt (\<lambda>a b. count b \<le> count a) pds"

text \<open>The number recorded for a key in a tally, zero when the key is not in it.\<close>

definition tally :: "(string \<times> nat) list \<Rightarrow> string \<Rightarrow> nat" where
  "tally kvs k = (case map_of kvs k of None \<Rightarrow> 0 | Some c \<Rightarrow> c)"

subsection \<open>Sample states\<close>

text \<open>\<open>holding d\<close> is a store that holds the document \<open>d\<close> and answers every call;
  \<open>w_empty\<close> has nothing under the key.  The documents: one of the older shape, the
  default one with one and with two entries, one whose entry lists a date twice, and one
  whose only option has a counter of \<open>2^53\<close>.\<close>

text \<open>The sample names are ASCII.  On a string of ASCII characters
  \<open>String.prototype.toLowerCase\<close> maps the letters \<open>A\<close> to \<open>Z\<close> to \<open>a\<close> to \<open>z\<close>
  and keeps every other character; \<open>ascii_toLowerCase\<close> is that function, and it stands
  for \<open>toLowerCase\<close> where a handler is run on the samples.\<close>

definition ascii_lower :: "char \<Rightarrow> char" where
  "ascii_lower c =
     (let n = (of_char c :: nat) in if 65 \<le> n \<and> n \<le> 90 then char_of (n + 32) else c)"

definition ascii_toLowerCase :: "string \<Rightarrow> string" where
  "ascii_toLowerCase s = map ascii_lower s"

definition w_empty :: world where
  "w_empty = \<lparr>stored = None, faults = [], trace = []\<rparr>"

definition old_doc :: PollDocument where
  "old_doc =
     \<lparr>poll_id = ''p1'', title = ''Old poll'', userVotes = None,
      options = [\<lparr>label = ''2024-05-01'', votes = 4\<rparr>]\<rparr>"

definition holding :: "PollDocument \<Rightarrow> world" where
  "holding d = \<lparr>stored = Some (Json d), faults = [], trace = []\<rparr>"

definition alice_doc :: PollDocument where
  "alice_doc =
     initialData\<lparr>userVotes :=
       Some [\<lparr>vote_id = ''1700000000000'', userName = ''Alice'', dates = [''2024-04-05'']\<rparr>]\<rparr>"

definition two_doc :: PollDocument where
  "two_doc =
     initialData\<lparr>userVotes :=
       Some [\<lparr>vote_id = ''1700000000000'', userName = ''Alice'', dates = [''2024-04-05'']\<rparr>,
             \<lparr>vote_id = ''1700000000500'', userName = ''Bob'',
              dates = [''2024-04-05'', ''2024-04-12'']\<rparr>]\<rparr>"

definition twice_doc :: PollDocument where
  "twice_doc =
     initialData\<lparr>userVotes :=
       Some [\<lparr>vote_id = ''1700000000000'', userName = ''Ann'',
              dates = [''2024-04-05'', ''2024-04-05'']\<rparr>]\<rparr>"

definition saturated_doc :: PollDocument where
  "saturated_doc =
     \<lparr>poll_id = ''p2'', title = ''Busy poll'', userVotes = Some [],
      options = [\<lparr>label = ''2024-04-05'', votes = 9007199254740992\<rparr>]\<rparr>"

section \<open>Properties\<close>

subsection \<open>The store client\<close>

lemma next_fault_eq: "next_fault fs = (fs \<noteq> [] \<and> hd fs, tl fs)"
  by (cases fs) simp_all

lemma redisClient_get_eq:
  "redisClient_get w =
     (if faults w \<noteq> [] \<and> hd (faults w) then Inl StoreError else Inr (stored w),
      w\<lparr>faults := tl (faults w), trace := trace w @ [Get]\<rparr>)"
  by (simp add: redisClient_get_def next_fault_eq)

lemma redisClient_set_eq:
  "redisClient_set v w =
     (if faults w \<noteq> [] \<and> hd (faults w)
      then (Inl StoreError, w\<lparr>faults := tl (faults w), trace := trace w @ [Set v]\<rparr>)
      else (Inr (), w\<lparr>stored := Some v, faults := tl (faults w), trace := trace w @ [Set v]\<rparr>))"
  by (simp add: redisClient_set_def next_fault_eq)

subsection \<open>Reading leaves the store alone\<close>

text \<open>
  Claim C9.  \<open>GET /poll\<close> never changes the stored value: whatever the store holds and
  whether the read succeeds, finds nothing, fails to parse or is rejected, the value under
  the key after the request is the value before it, and the only call made on the store
  client is one read.
\<close>

theorem get_poll_read_only:
  "stored (snd (get_poll w)) = stored w \<and> trace (snd (get_poll w)) = trace w @ [Get]"
  by (simp add: get_poll_def redisClient_get_eq split: sum.split)

lemma no_fault_Suc:
  "no_fault (Suc n) fs \<Longrightarrow> \<not> (fs \<noteq> [] \<and> hd fs) \<and> no_fault n (tl fs)"
  by (cases fs; cases n) simp_all

lemma no_fault_1: "no_fault 1 fs \<Longrightarrow> \<not> (fs \<noteq> [] \<and> hd fs)"
  using no_fault_Suc [of 0 fs] by simp

lemma no_fault_2:
  "no_fault 2 fs \<Longrightarrow> \<not> (fs \<noteq> [] \<and> hd fs) \<and> \<not> (tl fs \<noteq> [] \<and> hd (tl fs))"
  using no_fault_Suc [of 1 fs] no_fault_Suc [of 0 "tl fs"] by (simp add: numeral_2_eq_2)

subsection \<open>Start-up\<close>

text \<open>
  Claim C5.  \<open>ensurePollExists\<close>, when the store answers its calls:
  on a store with nothing under the key it writes the default document, whose identifier
  and title are fixed, whose \<open>userVotes\<close> is empty and whose three options have zero
  votes; on a document without \<open>userVotes\<close> it writes the same document with an empty
  \<open>userVotes\<close> and every other field as it was; on a document that has \<open>userVotes\<close>
  it makes no write call and the stored value stays.
\<close>

theorem ensurePollExists_cases:
  "(absent (stored w) \<and> no_fault 2 (faults w) \<longrightarrow>
      fst (ensurePollExists w) = Inr ()
      \<and> stored (snd (ensurePollExists w)) = Some (Json initialData)
      \<and> trace (snd (ensurePollExists w)) = trace w @ [Get, Set (Json initialData)])
   \<and> poll_id initialData = ''seat-22222-3333-4444-555555555555''
   \<and> title initialData = ''Seattle Work Get-Together''
   \<and> userVotes initialData = Some []
   \<and> length (options initialData) = 3
   \<and> map votes (options initialData) = [0, 0, 0]
   \<and> (stored w = Some (Json d) \<and> userVotes d = None \<and> no_fault 2 (faults w) \<longrightarrow>
      fst (ensurePollExists w) = Inr ()
      \<and> stored (snd (ensurePollExists w)) = Some (Json (d\<lparr>userVotes := Some []\<rparr>))
      \<and> trace (snd (ensurePollExists w))
          = trace w @ [Get, Set (Json (d\<lparr>userVotes := Some []\<rparr>))])
   \<and> (stored w = Some (Json d) \<and> userVotes d \<noteq> None \<longrightarrow>
      stored (snd (ensurePollExists w)) = stored w
      \<and> trace (snd (ensurePollExists w)) = trace w @ [Get])"
proof -
  have fresh: "fst (ensurePollExists w) = Inr ()
      \<and> stored (snd (ensurePollExists w)) = Some (Json initialData)
      \<and> trace (snd (ensurePollExists w)) = trace w @ [Get, Set (Json initialData)]"
    if "absent (stored w)" "no_fault 2 (faults w)"
    using that no_fault_2 [of "faults w"]
    by (simp add: ensurePollExists_def redisClient_get_eq redisClient_set_eq JSON_stringify_def)
  have seed: "poll_id initialData = ''seat-22222-3333-4444-555555555555''
      \<and> title initialData = ''Seattle Work Get-Together''
      \<and> userVotes initialData = Some []
      \<and> length (options initialData) = 3
      \<and> map votes (options initialData) = [0, 0, 0]"
    by (simp add: initialData_def)
  have migrate: "fst (ensurePollExists w) = Inr ()
      \<and> stored (snd (ensurePollExists w)) = Some (Json (d\<lparr>userVotes := Some []\<rparr>))
      \<and> trace (snd (ensurePollExists w))
          = trace w @ [Get, Set (Json (d\<lparr>userVotes := Some []\<rparr>))]"
    if "stored w = Some (Json d)" "userVotes d = None" "no_fault 2 (faults w)"
    using that no_fault_2 [of "faults w"]
    by (simp add: ensurePollExists_def redisClient_get_eq redisClient_set_eq JSON_stringify_def)
  have keep: "stored (snd (ensurePollExists w)) = stored w
      \<and> trace (snd (ensurePollExists w)) = trace w @ [Get]"
    if "stored w = Some (Json d)" "userVotes d \<noteq> None"
    using that by (auto simp add: ensurePollExists_def redisClient_get_eq)
  show ?thesis using fresh seed migrate keep by blast
qed

theorem ensurePollExists_cases_witness:
  "absent (stored w_empty) \<and> no_fault 2 (faults w_empty)
   \<and> stored (snd (ensurePollExists w_empty)) = Some (Json initialData)
   \<and> userVotes old_doc = None
   \<and> stored (snd (ensurePollExists (holding old_doc)))
       = Some (Json \<lparr>poll_id = ''p1'', title = ''Old poll'', userVotes = Some [],
                      options = [\<lparr>label = ''2024-05-01'', votes = 4\<rparr>]\<rparr>)
   \<and> userVotes initialData = Some []
   \<and> trace (snd (ensurePollExists (holding initialData))) = [Get]"
  using ensurePollExists_cases [of w_empty old_doc]
    ensurePollExists_cases [of "holding old_doc" old_doc]
    ensurePollExists_cases [of "holding initialData" initialData]
  by (simp add: w_empty_def old_doc_def holding_def initialData_def numeral_2_eq_2)

subsection \<open>Validation of a submission\<close>

text \<open>
  Claim C8.  A request to \<open>POST /poll/user-dates\<close> whose body has no \<open>userName\<close> or
  an empty one, no \<open>dates\<close>, \<open>dates\<close> that are not an array, or an empty array, is
  answered with status 400 and the world is left exactly as it was: no call is made on
  the store client, so the stored value is unchanged.
\<close>

theorem invalid_submission_rejected:
  assumes "name_arg = None \<or> name_arg = Some [] \<or> dates_arg = NoDates \<or> dates_arg = NotArray
           \<or> dates_arg = Dates []"
  shows "post_poll_user_dates toLowerCase name_arg dates_arg now w
         = ((400, Error ''Invalid submission. Please provide your name and at least one date.''), w)"
proof -
  have "invalid_submission name_arg dates_arg"
    using assms by (cases name_arg; cases dates_arg) auto
  then show ?thesis by (simp add: post_poll_user_dates_def)
qed

theorem invalid_submission_rejected_witness:
  "post_poll_user_dates ascii_toLowerCase None (Dates [''2024-04-05'']) 7 (holding initialData)
     = ((400, Error ''Invalid submission. Please provide your name and at least one date.''),
        holding initialData)
   \<and> post_poll_user_dates ascii_toLowerCase (Some ''Alice'') (Dates []) 7 w_empty
     = ((400, Error ''Invalid submission. Please provide your name and at least one date.''),
        w_empty)"
  using invalid_submission_rejected [where toLowerCase = ascii_toLowerCase and name_arg = None
        and dates_arg = "Dates [''2024-04-05'']" and now = 7 and w = "holding initialData"]
    invalid_submission_rejected [where toLowerCase = ascii_toLowerCase
        and name_arg = "Some ''Alice''" and dates_arg = "Dates []" and now = 7 and w = w_empty]
  by simp

subsection \<open>The legacy vote\<close>

text \<open>
  Claim C6, as amended.  On a stored document and a store that answers its calls,
  \<open>POST /poll/vote\<close> with an index \<open>0 \<le> i < n\<close> whose counter is below \<open>2^53\<close>
  answers 200 and stores the document with that counter raised by one and nothing else
  changed; with an index below zero or at least \<open>n\<close> it answers 400, makes no write
  call and leaves the stored value as it was.
\<close>

theorem vote_in_and_out_of_bounds:
  assumes "stored w = Some (Json d)"
  shows "(0 \<le> i \<and> i < int (length (options d)) \<and> votes (options d ! nat i) < 2 ^ 53
          \<and> no_fault 2 (faults w) \<longrightarrow>
            fst (post_poll_vote (Some i) w) = (200, Message ''Vote registered.'')
            \<and> stored (snd (post_poll_vote (Some i) w))
                = Some (Json (d\<lparr>options := (options d)
                     [nat i := (options d ! nat i)\<lparr>votes := votes (options d ! nat i) + 1\<rparr>]\<rparr>)))
         \<and> ((i < 0 \<or> int (length (options d)) \<le> i) \<and> no_fault 1 (faults w) \<longrightarrow>
            fst (post_poll_vote (Some i) w) = (400, Error ''Invalid option index.'')
            \<and> stored (snd (post_poll_vote (Some i) w)) = stored w
            \<and> trace (snd (post_poll_vote (Some i) w)) = trace w @ [Get])"
proof -
  have inside: "fst (post_poll_vote (Some i) w) = (200, Message ''Vote registered.'')
            \<and> stored (snd (post_poll_vote (Some i) w))
                = Some (Json (d\<lparr>options := (options d)
                     [nat i := (options d ! nat i)\<lparr>votes := votes (options d ! nat i) + 1\<rparr>]\<rparr>))"
    if "0 \<le> i" "i < int (length (options d))" "votes (options d ! nat i) < 2 ^ 53"
       "no_fault 2 (faults w)"
  proof -
    have idx: "nat i < length (options d)" using that by linarith
    have inc: "js_increment (votes (options d ! nat i)) = votes (options d ! nat i) + 1"
      using that by (simp add: js_increment_def)
    show ?thesis
      using assms that idx inc no_fault_2 [of "faults w"]
      by (simp add: post_poll_vote_def redisClient_get_eq redisClient_set_eq
          JSON_stringify_def io_emit_def)
  qed
  have outside: "fst (post_poll_vote (Some i) w) = (400, Error ''Invalid option index.'')
            \<and> stored (snd (post_poll_vote (Some i) w)) = stored w
            \<and> trace (snd (post_poll_vote (Some i) w)) = trace w @ [Get]"
    if "i < 0 \<or> int (length (options d)) \<le> i" "no_fault 1 (faults w)"
    using assms that no_fault_1 [of "faults w"]
    by (auto simp add: post_poll_vote_def redisClient_get_eq)
  show ?thesis using inside outside by blast
qed

theorem vote_in_and_out_of_bounds_witness:
  "stored (holding initialData) = Some (Json initialData)
   \<and> length (options initialData) = 3
   \<and> fst (post_poll_vote (Some 1) (holding initialData)) = (200, Message ''Vote registered.'')
   \<and> stored (snd (post_poll_vote (Some 1) (holding initialData)))
       = Some (Json (initialData\<lparr>options :=
            [\<lparr>label = ''2024-04-05'', votes = 0\<rparr>, \<lparr>label = ''2024-04-12'', votes = 1\<rparr>,
             \<lparr>label = ''2024-04-19'', votes = 0\<rparr>]\<rparr>))
   \<and> fst (post_poll_vote (Some 99) (holding initialData)) = (400, Error ''Invalid option index.'')
   \<and> stored (snd (post_poll_vote (Some 99) (holding initialData))) = Some (Json initialData)"
  using vote_in_and_out_of_bounds [of "holding initialData" initialData 1]
    vote_in_and_out_of_bounds [of "holding initialData" initialData 99]
  by (simp add: holding_def initialData_def numeral_2_eq_2)

text \<open>
  Claim C6 as stated fails where the counter has reached \<open>2^53\<close>: the request is
  answered 200 and the document written back is the one that was read.
\<close>

theorem vote_counter_saturates:
  "fst (post_poll_vote (Some 0) (holding saturated_doc)) = (200, Message ''Vote registered.'')
   \<and> stored (snd (post_poll_vote (Some 0) (holding saturated_doc))) = Some (Json saturated_doc)
   \<and> map votes (options saturated_doc) = [9007199254740992]"
  by (simp add: post_poll_vote_def redisClient_get_eq redisClient_set_eq JSON_stringify_def
      io_emit_def holding_def saturated_doc_def js_increment_def)

text \<open>
  Claim C10.  When the body of \<open>POST /poll/vote\<close> has no \<open>optionIndex\<close> and the
  document is read from the store, the bounds guard does not reject the request, the
  indexing of \<open>options\<close> throws, and the request is answered with status 500 (not 400);
  no write call is made.
\<close>

theorem vote_without_index:
  assumes "stored w = Some (Json d)" and "no_fault 1 (faults w)"
  shows "\<not> invalid_index None (length (options d))
         \<and> vote_at None (options d) = Inl TypeError
         \<and> fst (post_poll_vote None w) = (500, Error ''Server error casting vote.'')
         \<and> stored (snd (post_poll_vote None w)) = stored w
         \<and> trace (snd (post_poll_vote None w)) = trace w @ [Get]"
  using assms no_fault_1 [of "faults w"]
  by (simp add: post_poll_vote_def redisClient_get_eq)

theorem vote_without_index_witness:
  "stored (holding initialData) = Some (Json initialData)
   \<and> no_fault 1 (faults (holding initialData))
   \<and> fst (post_poll_vote None (holding initialData)) = (500, Error ''Server error casting vote.'')
   \<and> stored (snd (post_poll_vote None (holding initialData))) = Some (Json initialData)"
  using vote_without_index [of "holding initialData" initialData]
  by (simp add: holding_def)

subsection \<open>Searching an array\<close>

lemma findIndex_ge: "- 1 \<le> findIndex P xs"
  by (induction xs) (auto simp: Let_def)

lemma findIndex_none: "findIndex P xs = - 1 \<longleftrightarrow> (\<forall>x \<in> set xs. \<not> P x)"
proof (induction xs)
  case Nil
  then show ?case by simp
next
  case (Cons x xs)
  then show ?case using findIndex_ge [of P xs] by (auto simp: Let_def)
qed

lemma findIndex_first:
  assumes "\<exists>x \<in> set xs. P x"
  shows "0 \<le> findIndex P xs \<and> nat (findIndex P xs) < length xs
         \<and> P (xs ! nat (findIndex P xs))
         \<and> (\<forall>j < nat (findIndex P xs). \<not> P (xs ! j))"
  using assms
proof (induction xs)
  case Nil
  then show ?case by simp
next
  case (Cons x xs)
  show ?case
  proof (cases "P x")
    case True
    then show ?thesis by simp
  next
    case False
    with Cons.prems have ex: "\<exists>y \<in> set xs. P y" by auto
    then have ne: "findIndex P xs \<noteq> - 1" by (simp add: findIndex_none)
    from Cons.IH [OF ex] have ih: "0 \<le> findIndex P xs" "nat (findIndex P xs) < length xs"
      "P (xs ! nat (findIndex P xs))" "\<forall>j < nat (findIndex P xs). \<not> P (xs ! j)" by auto
    have eq: "findIndex P (x # xs) = findIndex P xs + 1" using False ne by (simp add: Let_def)
    have n: "nat (findIndex P xs + 1) = Suc (nat (findIndex P xs))" using ih(1) by simp
    show ?thesis
      unfolding eq n using ih False
      by (auto simp: less_Suc_eq_0_disj)
  qed
qed

subsection \<open>More on faults, and sample evaluations\<close>

lemma no_fault_mono: "no_fault (Suc n) fs \<Longrightarrow> no_fault n fs"
proof (induction n arbitrary: fs)
  case 0
  then show ?case by simp
next
  case (Suc n)
  then show ?case by (cases fs) auto
qed

lemma no_fault_4: "no_fault 4 fs \<Longrightarrow> no_fault 2 fs \<and> no_fault 2 (tl (tl fs))"
proof -
  assume a: "no_fault 4 fs"
  have e4: "(4::nat) = Suc (Suc (Suc (Suc 0)))" and e2: "(2::nat) = Suc (Suc 0)" by simp_all
  from a have a3: "no_fault (Suc (Suc (Suc 0))) fs" unfolding e4 by (rule no_fault_mono)
  then have a2: "no_fault (Suc (Suc 0)) fs" by (rule no_fault_mono)
  from a have "no_fault (Suc (Suc (Suc 0))) (tl fs)" unfolding e4 using no_fault_Suc by blast
  then have "no_fault (Suc (Suc 0)) (tl (tl fs))" using no_fault_Suc by blast
  with a2 show ?thesis unfolding e2 by simp
qed

lemma lower_samples:
  "ascii_toLowerCase ''Alice'' = ''alice''" "ascii_toLowerCase ''alice'' = ''alice''"
  "ascii_toLowerCase ''Bob'' = ''bob''" "ascii_toLowerCase ''bob'' = ''bob''"
  "ascii_toLowerCase ''carol'' = ''carol''"
  by code_simp+

lemma toString_sample: "toString 1700000000000 = ''1700000000000''"
  by (simp add: toString.simps digit_def) code_simp

lemma no_fault_Nil [simp]: "no_fault n []"
  by (cases n) simp_all

subsection \<open>Submitting availability\<close>

lemma submit_existing:
  assumes "\<exists>v \<in> set uvs. same_user toLowerCase name v"
  shows "submit toLowerCase name ds now uvs
         = uvs[nat (findIndex (same_user toLowerCase name) uvs)
                 := (uvs ! nat (findIndex (same_user toLowerCase name) uvs))\<lparr>dates := ds\<rparr>]"
  using assms by (simp add: submit_def findIndex_none Let_def)

lemma submit_new:
  assumes "\<forall>v \<in> set uvs. \<not> same_user toLowerCase name v"
  shows "submit toLowerCase name ds now uvs = uvs @ [\<lparr>vote_id = toString now, userName = name, dates = ds\<rparr>]"
  using assms by (simp add: submit_def findIndex_none Let_def)

lemma post_poll_user_dates_ok:
  assumes "stored w = Some (Json d)" and "userVotes d = Some uvs" and "name \<noteq> []" and "ds \<noteq> []"
    and "no_fault 2 (faults w)"
  shows "post_poll_user_dates toLowerCase (Some name) (Dates ds) now w
         = ((200, Message ''Availability submitted successfully.''),
            w\<lparr>stored := Some (Json (d\<lparr>userVotes := Some (submit toLowerCase name ds now uvs)\<rparr>)),
              faults := tl (tl (faults w)),
              trace := trace w @ [Get, Set (Json (d\<lparr>userVotes := Some (submit toLowerCase name ds now uvs)\<rparr>)),
                                  Emit ''pollUpdated'']\<rparr>)"
  using assms no_fault_2 [of "faults w"]
  by (simp add: post_poll_user_dates_def redisClient_get_eq redisClient_set_eq
      JSON_stringify_def io_emit_def)

text \<open>
  Claim C2, as amended.  A submission with a non-empty name and a non-empty array of dates,
  on a stored document that has \<open>userVotes\<close> and a store that answers its calls, is
  answered 200.  If some entry has a name whose \<open>toLowerCase\<close> equals that of the
  submitted name, the first such entry gets the submitted dates in place of its own, keeps
  its name and identifier, and the number of entries does not change.  If no entry has,
  one entry is appended, with the submitted name and dates and the decimal text of the
  clock as identifier.  A second submission whose name has the same \<open>toLowerCase\<close> as
  the first then leaves that one entry, under the name first stored, with the dates of
  the second.
\<close>

theorem submit_user_dates_cases:
  assumes "stored w = Some (Json d)" and "userVotes d = Some uvs" and "name \<noteq> []" and "ds \<noteq> []"
    and "no_fault 2 (faults w)"
  shows "fst (post_poll_user_dates toLowerCase (Some name) (Dates ds) now w)
           = (200, Message ''Availability submitted successfully.'')
         \<and> ((\<exists>v \<in> set uvs. toLowerCase (userName v) = toLowerCase name) \<longrightarrow>
              (\<exists>i < length uvs.
                 toLowerCase (userName (uvs ! i)) = toLowerCase name
                 \<and> (\<forall>j < i. toLowerCase (userName (uvs ! j)) \<noteq> toLowerCase name)
                 \<and> stored (snd (post_poll_user_dates toLowerCase (Some name) (Dates ds) now w))
                     = Some (Json (d\<lparr>userVotes := Some (uvs[i := (uvs ! i)\<lparr>dates := ds\<rparr>])\<rparr>))
                 \<and> length (uvs[i := (uvs ! i)\<lparr>dates := ds\<rparr>]) = length uvs))
         \<and> ((\<forall>v \<in> set uvs. toLowerCase (userName v) \<noteq> toLowerCase name) \<longrightarrow>
              stored (snd (post_poll_user_dates toLowerCase (Some name) (Dates ds) now w))
                = Some (Json (d\<lparr>userVotes :=
                     Some (uvs @ [\<lparr>vote_id = toString now, userName = name, dates = ds\<rparr>])\<rparr>)))
         \<and> ((\<forall>v \<in> set uvs. toLowerCase (userName v) \<noteq> toLowerCase name)
              \<and> toLowerCase name' = toLowerCase name
              \<and> name' \<noteq> [] \<and> ds' \<noteq> [] \<and> no_fault 4 (faults w) \<longrightarrow>
              stored (snd (post_poll_user_dates toLowerCase (Some name') (Dates ds') now'
                             (snd (post_poll_user_dates toLowerCase (Some name) (Dates ds) now w))))
                = Some (Json (d\<lparr>userVotes :=
                     Some (uvs @ [\<lparr>vote_id = toString now, userName = name, dates = ds'\<rparr>])\<rparr>)))"
proof -
  have main:
    "fst (post_poll_user_dates toLowerCase (Some name) (Dates ds) now w)
               = (200, Message ''Availability submitted successfully.'')
             \<and> ((\<exists>v \<in> set uvs. same_user toLowerCase name v) \<longrightarrow>
                  (\<exists>i < length uvs.
                     same_user toLowerCase name (uvs ! i) \<and> (\<forall>j < i. \<not> same_user toLowerCase name (uvs ! j))
                     \<and> stored (snd (post_poll_user_dates toLowerCase (Some name) (Dates ds) now w))
                         = Some (Json (d\<lparr>userVotes := Some (uvs[i := (uvs ! i)\<lparr>dates := ds\<rparr>])\<rparr>))
                     \<and> length (uvs[i := (uvs ! i)\<lparr>dates := ds\<rparr>]) = length uvs))
             \<and> ((\<forall>v \<in> set uvs. \<not> same_user toLowerCase name v) \<longrightarrow>
                  stored (snd (post_poll_user_dates toLowerCase (Some name) (Dates ds) now w))
                    = Some (Json (d\<lparr>userVotes :=
                         Some (uvs @ [\<lparr>vote_id = toString now, userName = name, dates = ds\<rparr>])\<rparr>)))
             \<and> ((\<forall>v \<in> set uvs. \<not> same_user toLowerCase name v) \<and> toLowerCase name' = toLowerCase name
                  \<and> name' \<noteq> [] \<and> ds' \<noteq> [] \<and> no_fault 4 (faults w) \<longrightarrow>
                  stored (snd (post_poll_user_dates toLowerCase (Some name') (Dates ds') now'
                                 (snd (post_poll_user_dates toLowerCase (Some name) (Dates ds) now w))))
                    = Some (Json (d\<lparr>userVotes :=
                         Some (uvs @ [\<lparr>vote_id = toString now, userName = name, dates = ds'\<rparr>])\<rparr>)))"
  proof -
    note ok = post_poll_user_dates_ok [OF assms, where toLowerCase = toLowerCase and now = now]
    have status: "fst (post_poll_user_dates toLowerCase (Some name) (Dates ds) now w)
             = (200, Message ''Availability submitted successfully.'')"
      by (simp add: ok)
    have replaced: "\<exists>i < length uvs.
                   same_user toLowerCase name (uvs ! i) \<and> (\<forall>j < i. \<not> same_user toLowerCase name (uvs ! j))
                   \<and> stored (snd (post_poll_user_dates toLowerCase (Some name) (Dates ds) now w))
                       = Some (Json (d\<lparr>userVotes := Some (uvs[i := (uvs ! i)\<lparr>dates := ds\<rparr>])\<rparr>))
                   \<and> length (uvs[i := (uvs ! i)\<lparr>dates := ds\<rparr>]) = length uvs"
      if ex: "\<exists>v \<in> set uvs. same_user toLowerCase name v"
    proof -
      let ?i = "nat (findIndex (same_user toLowerCase name) uvs)"
      have "stored (snd (post_poll_user_dates toLowerCase (Some name) (Dates ds) now w))
              = Some (Json (d\<lparr>userVotes := Some (uvs[?i := (uvs ! ?i)\<lparr>dates := ds\<rparr>])\<rparr>))"
        by (simp add: ok submit_existing [OF ex])
      with findIndex_first [OF ex] show ?thesis by (intro exI [of _ ?i]) simp
    qed
    have appended: "stored (snd (post_poll_user_dates toLowerCase (Some name) (Dates ds) now w))
                  = Some (Json (d\<lparr>userVotes :=
                       Some (uvs @ [\<lparr>vote_id = toString now, userName = name, dates = ds\<rparr>])\<rparr>))"
      if no: "\<forall>v \<in> set uvs. \<not> same_user toLowerCase name v"
      by (simp add: ok submit_new [OF no])
    have again: "stored (snd (post_poll_user_dates toLowerCase (Some name') (Dates ds') now'
                               (snd (post_poll_user_dates toLowerCase (Some name) (Dates ds) now w))))
                  = Some (Json (d\<lparr>userVotes :=
                       Some (uvs @ [\<lparr>vote_id = toString now, userName = name, dates = ds'\<rparr>])\<rparr>))"
      if no: "\<forall>v \<in> set uvs. \<not> same_user toLowerCase name v" and same: "toLowerCase name' = toLowerCase name"
        and ne: "name' \<noteq> []" "ds' \<noteq> []" and nf: "no_fault 4 (faults w)"
    proof -
      let ?new = "\<lparr>vote_id = toString now, userName = name, dates = ds\<rparr>"
      let ?d1 = "d\<lparr>userVotes := Some (uvs @ [?new])\<rparr>"
      let ?w1 = "snd (post_poll_user_dates toLowerCase (Some name) (Dates ds) now w)"
      have s1: "stored ?w1 = Some (Json ?d1)" by (rule appended [OF no])
      have u1: "userVotes ?d1 = Some (uvs @ [?new])" by simp
      have f1: "no_fault 2 (faults ?w1)" using no_fault_4 [OF nf] by (simp add: ok)
      have no': "\<forall>v \<in> set uvs. \<not> same_user toLowerCase name' v" using no same by (simp add: same_user_def)
      have hit: "same_user toLowerCase name' ?new" using same by (simp add: same_user_def)
      have idx: "findIndex (same_user toLowerCase name') (uvs @ [?new]) = int (length uvs)"
        using no' hit by (induction uvs) (auto simp: Let_def)
      have "submit toLowerCase name' ds' now' (uvs @ [?new]) = uvs @ [?new\<lparr>dates := ds'\<rparr>]"
        by (simp add: submit_def idx Let_def)
      then show ?thesis
        using post_poll_user_dates_ok [OF s1 u1 ne f1, where toLowerCase = toLowerCase and now = now']
        by simp
    qed
    show ?thesis using status replaced appended again by blast
  qed
  show ?thesis using main unfolding same_user_def .
qed

theorem submit_user_dates_cases_witness:
  "stored (snd (post_poll_user_dates ascii_toLowerCase (Some ''alice'') (Dates [''2024-04-12'']) 1700000000900
                  (snd (post_poll_user_dates ascii_toLowerCase (Some ''Alice'') (Dates [''2024-04-05''])
                          1700000000000 (holding initialData)))))
     = Some (Json (initialData\<lparr>userVotes :=
          Some [\<lparr>vote_id = ''1700000000000'', userName = ''Alice'', dates = [''2024-04-12'']\<rparr>]\<rparr>))
   \<and> fst (post_poll_user_dates ascii_toLowerCase (Some ''Bob'') (Dates [''2024-04-05'', ''2024-04-12''])
             1700000000000 (holding alice_doc))
     = (200, Message ''Availability submitted successfully.'')
   \<and> stored (snd (post_poll_user_dates ascii_toLowerCase (Some ''bob'') (Dates [''2024-04-19''])
                  1700000000900 (holding two_doc)))
     = Some (Json (initialData\<lparr>userVotes :=
          Some [\<lparr>vote_id = ''1700000000000'', userName = ''Alice'', dates = [''2024-04-05'']\<rparr>,
                \<lparr>vote_id = ''1700000000500'', userName = ''Bob'', dates = [''2024-04-19'']\<rparr>]\<rparr>))"
proof -
  have first: "stored (holding initialData) = Some (Json initialData)"
    "userVotes initialData = Some []" "no_fault 2 (faults (holding initialData))"
    by (simp_all add: holding_def initialData_def)
  have second: "stored (holding alice_doc) = Some (Json alice_doc)"
    "userVotes alice_doc
       = Some [\<lparr>vote_id = ''1700000000000'', userName = ''Alice'', dates = [''2024-04-05'']\<rparr>]"
    "no_fault 2 (faults (holding alice_doc))"
    by (simp_all add: holding_def alice_doc_def)
  have third: "stored (holding two_doc) = Some (Json two_doc)"
    "userVotes two_doc
       = Some [\<lparr>vote_id = ''1700000000000'', userName = ''Alice'', dates = [''2024-04-05'']\<rparr>,
               \<lparr>vote_id = ''1700000000500'', userName = ''Bob'',
                dates = [''2024-04-05'', ''2024-04-12'']\<rparr>]"
    "no_fault 2 (faults (holding two_doc))"
    by (simp_all add: holding_def two_doc_def)
  have a: "stored (snd (post_poll_user_dates ascii_toLowerCase (Some ''alice'') (Dates [''2024-04-12'']) 1700000000900
                  (snd (post_poll_user_dates ascii_toLowerCase (Some ''Alice'') (Dates [''2024-04-05''])
                          1700000000000 (holding initialData)))))
     = Some (Json (initialData\<lparr>userVotes :=
          Some [\<lparr>vote_id = ''1700000000000'', userName = ''Alice'', dates = [''2024-04-12'']\<rparr>]\<rparr>))"
    using submit_user_dates_cases [OF first(1) first(2) _ _ first(3),
        where toLowerCase = ascii_toLowerCase and name = "''Alice''" and ds = "[''2024-04-05'']"
          and now = 1700000000000 and name' = "''alice''" and ds' = "[''2024-04-12'']"
          and now' = 1700000000900]
    by (simp add: holding_def lower_samples toString_sample)
  have b: "fst (post_poll_user_dates ascii_toLowerCase (Some ''Bob'') (Dates [''2024-04-05'', ''2024-04-12''])
             1700000000000 (holding alice_doc))
     = (200, Message ''Availability submitted successfully.'')"
    using submit_user_dates_cases [OF second(1) second(2) _ _ second(3),
        where toLowerCase = ascii_toLowerCase and name = "''Bob''"
          and ds = "[''2024-04-05'', ''2024-04-12'']" and now = 1700000000000]
    by simp
  have c: "stored (snd (post_poll_user_dates ascii_toLowerCase (Some ''bob'') (Dates [''2024-04-19''])
                  1700000000900 (holding two_doc)))
     = Some (Json (initialData\<lparr>userVotes :=
          Some [\<lparr>vote_id = ''1700000000000'', userName = ''Alice'', dates = [''2024-04-05'']\<rparr>,
                \<lparr>vote_id = ''1700000000500'', userName = ''Bob'', dates = [''2024-04-19'']\<rparr>]\<rparr>))"
    using submit_user_dates_cases [OF third(1) third(2) _ _ third(3),
        where toLowerCase = ascii_toLowerCase and name = "''bob''" and ds = "[''2024-04-19'']"
          and now = 1700000000900]
    by (auto simp add: same_user_def lower_samples two_doc_def less_Suc_eq numeral_2_eq_2)
  show ?thesis using a b c by (intro conjI)
qed

text \<open>
  Claim C2 as stated fails on a document of the older shape, which has no \<open>userVotes\<close>:
  no entry matches the submitted name, yet nothing is appended; the request is answered 500
  and no write call is made.
\<close>

theorem submit_on_older_shape:
  "userVotes old_doc = None
   \<and> fst (post_poll_user_dates ascii_toLowerCase (Some ''Alice'') (Dates [''2024-04-05''])
             1700000000000 (holding old_doc))
     = (500, Error ''Server error submitting availability.'')
   \<and> stored (snd (post_poll_user_dates ascii_toLowerCase (Some ''Alice'') (Dates [''2024-04-05''])
                  1700000000000 (holding old_doc)))
     = Some (Json old_doc)
   \<and> trace (snd (post_poll_user_dates ascii_toLowerCase (Some ''Alice'') (Dates [''2024-04-05''])
                 1700000000000 (holding old_doc)))
     = [Get]"
proof -
  have u: "userVotes old_doc = None" by (simp add: old_doc_def)
  show ?thesis
    by (simp add: u post_poll_user_dates_def redisClient_get_eq holding_def)
qed

subsection \<open>Deleting availability\<close>

text \<open>
  Claim C7, as amended.  On a stored document that has \<open>userVotes\<close>, and for a non-empty
  name (the route has no match for an empty one): if some entry has a name whose
  \<open>toLowerCase\<close> equals that of the given name and the store answers, the first such
  entry is removed, every other entry stays in its place, and the document is written
  back; if no entry has, the request is answered 404, no write call is made and the
  stored value is unchanged.
\<close>

theorem delete_user_dates_cases:
  assumes "stored w = Some (Json d)" and "userVotes d = Some uvs" and "name \<noteq> []"
  shows "((\<exists>v \<in> set uvs. toLowerCase (userName v) = toLowerCase name) \<and> no_fault 2 (faults w) \<longrightarrow>
           (\<exists>i < length uvs.
              toLowerCase (userName (uvs ! i)) = toLowerCase name
              \<and> (\<forall>j < i. toLowerCase (userName (uvs ! j)) \<noteq> toLowerCase name)
              \<and> fst (delete_poll_user_dates toLowerCase name w)
                  = (200, Message ''User dates successfully deleted.'')
              \<and> stored (snd (delete_poll_user_dates toLowerCase name w))
                  = Some (Json (d\<lparr>userVotes := Some (take i uvs @ drop (Suc i) uvs)\<rparr>))
              \<and> Suc (length (take i uvs @ drop (Suc i) uvs)) = length uvs))
         \<and> ((\<forall>v \<in> set uvs. toLowerCase (userName v) \<noteq> toLowerCase name)
             \<and> no_fault 1 (faults w) \<longrightarrow>
           fst (delete_poll_user_dates toLowerCase name w)
             = (404, Error ''User not found in the poll.'')
           \<and> stored (snd (delete_poll_user_dates toLowerCase name w)) = stored w
           \<and> trace (snd (delete_poll_user_dates toLowerCase name w)) = trace w @ [Get])"
proof -
  have main:
    "((\<exists>v \<in> set uvs. same_user toLowerCase name v) \<and> no_fault 2 (faults w) \<longrightarrow>
               (\<exists>i < length uvs.
                  same_user toLowerCase name (uvs ! i) \<and> (\<forall>j < i. \<not> same_user toLowerCase name (uvs ! j))
                  \<and> fst (delete_poll_user_dates toLowerCase name w)
                      = (200, Message ''User dates successfully deleted.'')
                  \<and> stored (snd (delete_poll_user_dates toLowerCase name w))
                      = Some (Json (d\<lparr>userVotes := Some (take i uvs @ drop (Suc i) uvs)\<rparr>))
                  \<and> Suc (length (take i uvs @ drop (Suc i) uvs)) = length uvs))
             \<and> ((\<forall>v \<in> set uvs. \<not> same_user toLowerCase name v) \<and> no_fault 1 (faults w) \<longrightarrow>
               fst (delete_poll_user_dates toLowerCase name w) = (404, Error ''User not found in the poll.'')
               \<and> stored (snd (delete_poll_user_dates toLowerCase name w)) = stored w
               \<and> trace (snd (delete_poll_user_dates toLowerCase name w)) = trace w @ [Get])"
  proof -
    have found: "\<exists>i < length uvs.
                same_user toLowerCase name (uvs ! i) \<and> (\<forall>j < i. \<not> same_user toLowerCase name (uvs ! j))
                \<and> fst (delete_poll_user_dates toLowerCase name w)
                    = (200, Message ''User dates successfully deleted.'')
                \<and> stored (snd (delete_poll_user_dates toLowerCase name w))
                    = Some (Json (d\<lparr>userVotes := Some (take i uvs @ drop (Suc i) uvs)\<rparr>))
                \<and> Suc (length (take i uvs @ drop (Suc i) uvs)) = length uvs"
      if ex: "\<exists>v \<in> set uvs. same_user toLowerCase name v" and nf: "no_fault 2 (faults w)"
    proof -
      let ?i = "nat (findIndex (same_user toLowerCase name) uvs)"
      note fi = findIndex_first [OF ex]
      have ne: "findIndex (same_user toLowerCase name) uvs \<noteq> - 1" using ex by (simp add: findIndex_none)
      have "fst (delete_poll_user_dates toLowerCase name w) = (200, Message ''User dates successfully deleted.'')
          \<and> stored (snd (delete_poll_user_dates toLowerCase name w))
              = Some (Json (d\<lparr>userVotes := Some (take ?i uvs @ drop (Suc ?i) uvs)\<rparr>))"
        using assms ne no_fault_2 [OF nf]
        by (simp add: delete_poll_user_dates_def redisClient_get_eq redisClient_set_eq
            JSON_stringify_def io_emit_def splice1_def Let_def)
      moreover have "Suc (length (take ?i uvs @ drop (Suc ?i) uvs)) = length uvs"
      proof -
        from fi have "?i < length uvs" by blast
        then show ?thesis by simp
      qed
      ultimately show ?thesis using fi by blast
    qed
    have missing: "fst (delete_poll_user_dates toLowerCase name w) = (404, Error ''User not found in the poll.'')
             \<and> stored (snd (delete_poll_user_dates toLowerCase name w)) = stored w
             \<and> trace (snd (delete_poll_user_dates toLowerCase name w)) = trace w @ [Get]"
      if no: "\<forall>v \<in> set uvs. \<not> same_user toLowerCase name v" and nf: "no_fault 1 (faults w)"
    proof -
      have "findIndex (same_user toLowerCase name) uvs = - 1" using no by (simp add: findIndex_none)
      then show ?thesis
        using assms no_fault_1 [OF nf]
        by (simp add: delete_poll_user_dates_def redisClient_get_eq Let_def)
    qed
    show ?thesis using found missing by blast
  qed
  show ?thesis using main unfolding same_user_def .
qed

theorem delete_user_dates_cases_witness:
  "fst (delete_poll_user_dates ascii_toLowerCase ''alice'' (holding two_doc))
     = (200, Message ''User dates successfully deleted.'')
   \<and> stored (snd (delete_poll_user_dates ascii_toLowerCase ''alice'' (holding two_doc)))
     = Some (Json (initialData\<lparr>userVotes :=
          Some [\<lparr>vote_id = ''1700000000500'', userName = ''Bob'',
                 dates = [''2024-04-05'', ''2024-04-12'']\<rparr>]\<rparr>))
   \<and> fst (delete_poll_user_dates ascii_toLowerCase ''carol'' (holding two_doc))
     = (404, Error ''User not found in the poll.'')
   \<and> stored (snd (delete_poll_user_dates ascii_toLowerCase ''carol'' (holding two_doc))) = Some (Json two_doc)"
proof -
  have third: "stored (holding two_doc) = Some (Json two_doc)"
    "userVotes two_doc
       = Some [\<lparr>vote_id = ''1700000000000'', userName = ''Alice'', dates = [''2024-04-05'']\<rparr>,
               \<lparr>vote_id = ''1700000000500'', userName = ''Bob'',
                dates = [''2024-04-05'', ''2024-04-12'']\<rparr>]"
    by (simp_all add: holding_def two_doc_def)
  have nf: "no_fault 2 (faults (holding two_doc))" "no_fault 1 (faults (holding two_doc))"
    by (simp_all add: holding_def)
  have a: "fst (delete_poll_user_dates ascii_toLowerCase ''alice'' (holding two_doc))
     = (200, Message ''User dates successfully deleted.'')
   \<and> stored (snd (delete_poll_user_dates ascii_toLowerCase ''alice'' (holding two_doc)))
     = Some (Json (initialData\<lparr>userVotes :=
          Some [\<lparr>vote_id = ''1700000000500'', userName = ''Bob'',
                 dates = [''2024-04-05'', ''2024-04-12'']\<rparr>]\<rparr>))"
    using delete_user_dates_cases [OF third(1) third(2),
        where toLowerCase = ascii_toLowerCase and name = "''alice''"] nf
    by (auto simp add: same_user_def lower_samples two_doc_def less_Suc_eq numeral_2_eq_2)
  have b: "fst (delete_poll_user_dates ascii_toLowerCase ''carol'' (holding two_doc))
     = (404, Error ''User not found in the poll.'')
   \<and> stored (snd (delete_poll_user_dates ascii_toLowerCase ''carol'' (holding two_doc))) = Some (Json two_doc)"
    using delete_user_dates_cases [OF third(1) third(2),
        where toLowerCase = ascii_toLowerCase and name = "''carol''"] nf
    by (simp add: same_user_def lower_samples third(1))
  show ?thesis using a b by (intro conjI) (elim conjE, assumption)+
qed

text \<open>
  Claim C7 as stated fails on a document of the older shape, which has no \<open>userVotes\<close>:
  no entry matches the name, yet the request is answered 500, not 404.
\<close>

theorem delete_on_older_shape:
  "userVotes old_doc = None
   \<and> fst (delete_poll_user_dates ascii_toLowerCase ''carol'' (holding old_doc))
     = (500, Error ''Server error deleting user dates.'')
   \<and> stored (snd (delete_poll_user_dates ascii_toLowerCase ''carol'' (holding old_doc)))
     = Some (Json old_doc)
   \<and> trace (snd (delete_poll_user_dates ascii_toLowerCase ''carol'' (holding old_doc))) = [Get]"
proof -
  have u: "userVotes old_doc = None" by (simp add: old_doc_def)
  show ?thesis
    by (simp add: u delete_poll_user_dates_def redisClient_get_eq holding_def)
qed

subsection \<open>Names stay unique\<close>

lemma names_after_replace:
  assumes "i < length uvs"
  shows "map (\<lambda>v. toLowerCase (userName v)) (uvs[i := (uvs ! i)\<lparr>dates := ds\<rparr>])
         = map (\<lambda>v. toLowerCase (userName v)) uvs"
proof (rule nth_equalityI)
  show "length (map (\<lambda>v. toLowerCase (userName v)) (uvs[i := (uvs ! i)\<lparr>dates := ds\<rparr>]))
        = length (map (\<lambda>v. toLowerCase (userName v)) uvs)"
    by simp
next
  fix j
  assume "j < length (map (\<lambda>v. toLowerCase (userName v)) (uvs[i := (uvs ! i)\<lparr>dates := ds\<rparr>]))"
  then have j: "j < length uvs" by simp
  show "map (\<lambda>v. toLowerCase (userName v)) (uvs[i := (uvs ! i)\<lparr>dates := ds\<rparr>]) ! j
        = map (\<lambda>v. toLowerCase (userName v)) uvs ! j"
    using j assms by (cases "j = i") simp_all
qed

lemma unique_names_submit:
  assumes "unique_names toLowerCase uvs"
  shows "unique_names toLowerCase (submit toLowerCase name ds now uvs)"
proof (cases "\<exists>v \<in> set uvs. same_user toLowerCase name v")
  case True
  have lt: "nat (findIndex (same_user toLowerCase name) uvs) < length uvs"
    using findIndex_first [OF True] by simp
  show ?thesis
    unfolding unique_names_def submit_existing [OF True] names_after_replace [OF lt]
    using assms unfolding unique_names_def .
next
  case False
  then have no: "\<forall>v \<in> set uvs. \<not> same_user toLowerCase name v" by simp
  have "toLowerCase name \<notin> (\<lambda>v. toLowerCase (userName v)) ` set uvs"
  proof
    assume "toLowerCase name \<in> (\<lambda>v. toLowerCase (userName v)) ` set uvs"
    then obtain v where "v \<in> set uvs" "toLowerCase name = toLowerCase (userName v)" by blast
    then have "same_user toLowerCase name v" by (simp add: same_user_def)
    with no \<open>v \<in> set uvs\<close> show False by blast
  qed
  then show ?thesis
    using assms unfolding unique_names_def submit_new [OF no] by simp
qed

lemma distinct_splice1:
  assumes d: "distinct ys"
  shows "distinct (splice1 i ys)"
proof -
  have 1: "distinct (take i ys)" using d by (rule distinct_take)
  have 2: "distinct (drop (Suc i) ys)" using d by (rule distinct_drop)
  have 3: "set (take i ys) \<inter> set (drop (Suc i) ys) = {}"
    by (rule set_take_disj_set_drop_if_distinct [OF d]) simp
  show ?thesis
    unfolding splice1_def distinct_append using 1 2 3 by (intro conjI)
qed

lemma unique_names_splice1:
  assumes "unique_names toLowerCase uvs"
  shows "unique_names toLowerCase (splice1 i uvs)"
proof -
  have "distinct (splice1 i (map (\<lambda>v. toLowerCase (userName v)) uvs))"
    using assms unfolding unique_names_def by (rule distinct_splice1)
  then show ?thesis by (simp add: unique_names_def splice1_def take_map drop_map)
qed

lemma post_poll_user_dates_inv:
  assumes "store_inv toLowerCase (stored w)"
  shows "store_inv toLowerCase (stored (snd (post_poll_user_dates toLowerCase a b now w)))"
proof (cases "invalid_submission a b")
  case True
  then show ?thesis using assms by (simp add: post_poll_user_dates_def)
next
  case False
  then obtain name ds where ab: "a = Some name" "b = Dates ds"
    by (cases a; cases b) auto
  show ?thesis
  proof (cases "stored w" rule: JSON_parse.cases)
    case (1 d)
    with assms False ab show ?thesis
      by (auto simp: post_poll_user_dates_def redisClient_get_eq redisClient_set_eq
          JSON_stringify_def io_emit_def unique_names_submit split: option.splits)
  next
    case "2_1"
    with assms False ab show ?thesis
      by (simp add: post_poll_user_dates_def redisClient_get_eq)
  next
    case "2_2"
    with assms False ab show ?thesis
      by (simp add: post_poll_user_dates_def redisClient_get_eq)
  next
    case "2_3"
    with assms False ab show ?thesis
      by (simp add: post_poll_user_dates_def redisClient_get_eq)
  qed
qed

lemma delete_poll_user_dates_inv:
  assumes "store_inv toLowerCase (stored w)"
  shows "store_inv toLowerCase (stored (snd (delete_poll_user_dates toLowerCase name w)))"
proof (cases "stored w" rule: JSON_parse.cases)
  case (1 d)
  with assms show ?thesis
    by (auto simp: delete_poll_user_dates_def redisClient_get_eq redisClient_set_eq
        JSON_stringify_def io_emit_def unique_names_splice1 Let_def split: option.splits)
next
  case "2_1"
  with assms show ?thesis by (simp add: delete_poll_user_dates_def redisClient_get_eq)
next
  case "2_2"
  with assms show ?thesis by (simp add: delete_poll_user_dates_def redisClient_get_eq)
next
  case "2_3"
  with assms show ?thesis by (simp add: delete_poll_user_dates_def redisClient_get_eq)
qed

lemma post_poll_date_inv:
  assumes "store_inv toLowerCase (stored w)"
  shows "store_inv toLowerCase (stored (snd (post_poll_date nd w)))"
proof (cases "stored w" rule: JSON_parse.cases)
  case (1 d)
  with assms show ?thesis
    by (auto simp: post_poll_date_def redisClient_get_eq redisClient_set_eq
        JSON_stringify_def io_emit_def split: option.splits)
next
  case "2_1"
  with assms show ?thesis
    by (simp add: post_poll_date_def redisClient_get_eq split: option.splits)
next
  case "2_2"
  with assms show ?thesis
    by (simp add: post_poll_date_def redisClient_get_eq split: option.splits)
next
  case "2_3"
  with assms show ?thesis
    by (simp add: post_poll_date_def redisClient_get_eq split: option.splits)
qed

lemma post_poll_vote_inv:
  assumes "store_inv toLowerCase (stored w)"
  shows "store_inv toLowerCase (stored (snd (post_poll_vote oi w)))"
proof (cases "stored w" rule: JSON_parse.cases)
  case (1 d)
  with assms show ?thesis
    by (auto simp: post_poll_vote_def redisClient_get_eq redisClient_set_eq
        JSON_stringify_def io_emit_def split: option.splits sum.splits)
next
  case "2_1"
  with assms show ?thesis by (simp add: post_poll_vote_def redisClient_get_eq)
next
  case "2_2"
  with assms show ?thesis by (simp add: post_poll_vote_def redisClient_get_eq)
next
  case "2_3"
  with assms show ?thesis by (simp add: post_poll_vote_def redisClient_get_eq)
qed

text \<open>
  Claim C4.  Each of the four mutating routes keeps the invariant that no two entries of
  \<open>userVotes\<close> have the same name up to case (the same \<open>toLowerCase\<close>): if the
  stored value satisfies it before the request, it satisfies it after, whatever the
  request and whether or not the store answers.
\<close>

theorem mutations_keep_unique_names:
  assumes "store_inv toLowerCase (stored w)"
  shows "store_inv toLowerCase (stored (snd (post_poll_user_dates toLowerCase a b now w)))
         \<and> store_inv toLowerCase (stored (snd (delete_poll_user_dates toLowerCase name w)))
         \<and> store_inv toLowerCase (stored (snd (post_poll_date nd w)))
         \<and> store_inv toLowerCase (stored (snd (post_poll_vote oi w)))"
  using assms
  by (intro conjI post_poll_user_dates_inv delete_poll_user_dates_inv post_poll_date_inv
      post_poll_vote_inv)

theorem mutations_keep_unique_names_witness:
  "store_inv ascii_toLowerCase (stored (holding two_doc))
   \<and> store_inv ascii_toLowerCase (stored (snd (post_poll_user_dates ascii_toLowerCase (Some ''alice'') (Dates [''2024-04-12''])
                                1700000000900 (holding two_doc))))
   \<and> store_inv ascii_toLowerCase (stored (snd (delete_poll_user_dates ascii_toLowerCase ''bob'' (holding two_doc))))
   \<and> store_inv ascii_toLowerCase (stored (snd (post_poll_date (Some ''2024-05-03'') (holding two_doc))))
   \<and> store_inv ascii_toLowerCase (stored (snd (post_poll_vote (Some 0) (holding two_doc))))"
proof -
  have h: "store_inv ascii_toLowerCase (stored (holding two_doc))"
    by (simp add: holding_def two_doc_def unique_names_def lower_samples)
  show ?thesis
    using h mutations_keep_unique_names [OF h, of "Some ''alice''"
        "Dates [''2024-04-12'']" 1700000000900 "''bob''" "Some ''2024-05-03''" "Some 0"]
    by (intro conjI) (elim conjE, assumption)+
qed

subsection \<open>The popular dates\<close>

lemma keys_dateCounts_add:
  "set (map fst (dateCounts_add d kvs)) = insert d (set (map fst kvs))"
  by (induction d kvs rule: dateCounts_add.induct) auto

lemma distinct_dateCounts_add:
  "distinct (map fst kvs) \<Longrightarrow> distinct (map fst (dateCounts_add d kvs))"
proof (induction kvs)
  case Nil
  then show ?case by simp
next
  case (Cons kv kvs)
  obtain k c where kv: "kv = (k, c)" by (cases kv)
  show ?case
  proof (cases "k = d")
    case True
    then show ?thesis using Cons.prems kv by simp
  next
    case False
    have "k \<notin> set (map fst (dateCounts_add d kvs))"
      using Cons.prems kv False unfolding keys_dateCounts_add by simp
    then show ?thesis using Cons kv False by simp
  qed
qed

lemma tally_dateCounts_add:
  "tally (dateCounts_add d kvs) k = tally kvs k + (if k = d then 1 else 0)"
  by (induction kvs) (auto simp: tally_def)

lemma tally_fold_dates:
  "tally (fold dateCounts_add ds kvs) k = tally kvs k + count_list ds k"
  by (induction ds arbitrary: kvs) (auto simp: tally_dateCounts_add)

lemma distinct_fold_dates:
  "distinct (map fst kvs) \<Longrightarrow> distinct (map fst (fold dateCounts_add ds kvs))"
  by (induction ds arbitrary: kvs) (auto simp: distinct_dateCounts_add)

lemma tally_fold_votes:
  "tally (fold (\<lambda>vote. fold dateCounts_add (dates vote)) uvs kvs) k
   = tally kvs k + count_list (concat (map dates uvs)) k"
  by (induction uvs arbitrary: kvs) (auto simp: tally_fold_dates)

lemma distinct_fold_votes:
  "distinct (map fst kvs) \<Longrightarrow>
   distinct (map fst (fold (\<lambda>vote. fold dateCounts_add (dates vote)) uvs kvs))"
  by (induction uvs arbitrary: kvs) (auto simp: distinct_fold_dates)

lemma dateCounts_entry:
  assumes "(d, c) \<in> set (dateCounts uvs)"
  shows "c = occurrences d uvs"
proof -
  have "distinct (map fst (dateCounts uvs))"
    unfolding dateCounts_def by (rule distinct_fold_votes) simp
  then have "map_of (dateCounts uvs) d = Some c" using assms by simp
  then have "tally (dateCounts uvs) d = c" by (simp add: tally_def)
  moreover have "tally [] d = 0" by (simp add: tally_def)
  then have "tally (dateCounts uvs) d = occurrences d uvs"
    unfolding dateCounts_def occurrences_def by (simp add: tally_fold_votes)
  ultimately show ?thesis by simp
qed

lemma set_Object_entries: "set (Object_entries kvs) = set kvs"
  by (auto simp: Object_entries_def)

lemma set_insert_by: "set (insert_by cmp x ys) = insert x (set ys)"
  by (induction ys) auto

lemma set_sort_by: "set (sort_by cmp xs) = set xs"
  unfolding sort_by_def by (induction xs) (simp_all add: set_insert_by)

lemma descending_insert_by:
  "descending ys \<Longrightarrow> descending (insert_by by_count_desc x ys)"
proof (induction ys)
  case Nil
  then show ?case by (simp add: descending_def)
next
  case (Cons y ys)
  show ?case
  proof (cases "by_count_desc x y \<le> 0")
    case True
    then have "count y \<le> count x" by (simp add: by_count_desc_def)
    then show ?thesis using Cons.prems True by (auto simp: descending_def)
  next
    case False
    then have "count x \<le> count y" by (simp add: by_count_desc_def)
    moreover have "descending (insert_by by_count_desc x ys)"
      using Cons by (simp add: descending_def)
    ultimately show ?thesis
      using Cons.prems False by (auto simp: descending_def set_insert_by)
  qed
qed

lemma descending_sort_by: "descending (sort_by by_count_desc xs)"
  unfolding sort_by_def
  by (induction xs) (simp_all add: descending_insert_by, simp add: descending_def)

lemma descending_take: "descending xs \<Longrightarrow> descending (take n xs)"
  unfolding descending_def by (rule sorted_wrt_take)

lemma popularDates_entry:
  assumes "e \<in> set (popularDates uvs)"
  shows "count e = occurrences (date e) uvs"
proof -
  from assms have "e \<in> set (map (\<lambda>(d, c). \<lparr>date = d, count = c\<rparr>) (Object_entries (dateCounts uvs)))"
    unfolding popularDates_def using set_sort_by in_set_takeD by fastforce
  then obtain d c where dc: "(d, c) \<in> set (dateCounts uvs)" and e: "e = \<lparr>date = d, count = c\<rparr>"
    by (auto simp: set_Object_entries)
  from dateCounts_entry [OF dc] e show ?thesis by simp
qed

lemma count_list_distinct: "distinct xs \<Longrightarrow> count_list xs x = (if x \<in> set xs then 1 else 0)"
  by (induction xs) auto

lemma occurrences_voters:
  assumes "list_all (\<lambda>v. distinct (dates v)) uvs"
  shows "occurrences d uvs = voters_for d uvs"
  using assms unfolding occurrences_def voters_for_def
  by (induction uvs) (auto simp: count_list_distinct)

lemma popular_two:
  "popularDates [\<lparr>vote_id = ''1700000000000'', userName = ''Alice'', dates = [''2024-04-05'']\<rparr>,
                 \<lparr>vote_id = ''1700000000500'', userName = ''Bob'',
                  dates = [''2024-04-05'', ''2024-04-12'']\<rparr>]
   = [\<lparr>date = ''2024-04-05'', count = 2\<rparr>, \<lparr>date = ''2024-04-12'', count = 1\<rparr>]"
  by code_simp

lemma popular_twice:
  "popularDates [\<lparr>vote_id = ''1700000000000'', userName = ''Ann'',
                  dates = [''2024-04-05'', ''2024-04-05'']\<rparr>]
   = [\<lparr>date = ''2024-04-05'', count = 2\<rparr>]"
  by code_simp

lemma get_poll_ok:
  assumes "stored w = Some (Json d)" and "no_fault 1 (faults w)"
  shows "get_poll w
         = ((200, Poll d (case userVotes d of
                            None \<Rightarrow> None
                          | Some uvs \<Rightarrow> if length uvs > 0 then Some (popularDates uvs) else None)),
            w\<lparr>faults := tl (faults w), trace := trace w @ [Get]\<rparr>)"
  using assms no_fault_1 [of "faults w"]
  by (simp add: get_poll_def redisClient_get_eq)

text \<open>
  Claim C1, as amended.  For a stored document with a non-empty \<open>userVotes\<close> whose
  dates do not name members of \<open>Object.prototype\<close>, and a read that the store
  answers, the \<open>popularDates\<close> list of the response has at most 5 entries, is sorted by
  descending count, and gives each of its dates the number of times the date is listed
  over all entries.  Where no entry lists a date twice, that is the number of entries
  whose dates contain it.
\<close>

theorem popularDates_counts:
  assumes "stored w = Some (Json d)" and "userVotes d = Some uvs" and "uvs \<noteq> []"
    and "no_fault 1 (faults w)" and "plain_dates uvs"
  shows "\<exists>pds. fst (get_poll w) = (200, Poll d (Some pds))
           \<and> length pds \<le> 5
           \<and> descending pds
           \<and> (\<forall>e \<in> set pds. count e = occurrences (date e) uvs)
           \<and> (list_all (\<lambda>v. distinct (dates v)) uvs \<longrightarrow>
                (\<forall>e \<in> set pds. count e = voters_for (date e) uvs))"
proof (intro exI conjI)
  show "fst (get_poll w) = (200, Poll d (Some (popularDates uvs)))"
    using assms by (simp add: get_poll_ok)
  show "length (popularDates uvs) \<le> 5"
    by (simp add: popularDates_def)
  show "descending (popularDates uvs)"
    unfolding popularDates_def by (intro descending_take descending_sort_by)
  show "\<forall>e \<in> set (popularDates uvs). count e = occurrences (date e) uvs"
    by (simp add: popularDates_entry)
  show "list_all (\<lambda>v. distinct (dates v)) uvs \<longrightarrow>
          (\<forall>e \<in> set (popularDates uvs). count e = voters_for (date e) uvs)"
    by (simp add: popularDates_entry occurrences_voters)
qed

theorem popularDates_counts_witness:
  "plain_dates (the (userVotes two_doc))
   \<and> fst (get_poll (holding two_doc))
      = (200, Poll two_doc (Some [\<lparr>date = ''2024-04-05'', count = 2\<rparr>,
                                    \<lparr>date = ''2024-04-12'', count = 1\<rparr>]))
   \<and> descending [\<lparr>date = ''2024-04-05'', count = 2\<rparr>, \<lparr>date = ''2024-04-12'', count = 1\<rparr>]
   \<and> occurrences ''2024-04-05'' (the (userVotes two_doc)) = 2
   \<and> voters_for ''2024-04-05'' (the (userVotes two_doc)) = 2"
proof -
  let ?uvs = "[\<lparr>vote_id = ''1700000000000'', userName = ''Alice'', dates = [''2024-04-05'']\<rparr>,
               \<lparr>vote_id = ''1700000000500'', userName = ''Bob'',
                dates = [''2024-04-05'', ''2024-04-12'']\<rparr>]"
  have st: "stored (holding two_doc) = Some (Json two_doc)" "userVotes two_doc = Some ?uvs"
    "?uvs \<noteq> []" "no_fault 1 (faults (holding two_doc))"
    by (simp_all add: holding_def two_doc_def)
  have plain: "plain_dates ?uvs"
    by (simp add: plain_dates_def inherited_name_def)
  have occ: "occurrences ''2024-04-05'' ?uvs = 2" "voters_for ''2024-04-05'' ?uvs = 2"
    by (simp_all add: occurrences_def voters_for_def)
  have desc: "descending [\<lparr>date = ''2024-04-05'', count = 2\<rparr>,
                          \<lparr>date = ''2024-04-12'', count = 1\<rparr>]"
    by (simp add: descending_def)
  have resp: "fst (get_poll (holding two_doc))
      = (200, Poll two_doc (Some [\<lparr>date = ''2024-04-05'', count = 2\<rparr>,
                                    \<lparr>date = ''2024-04-12'', count = 1\<rparr>]))"
    using popularDates_counts [OF st plain]
    by (simp add: get_poll_ok [OF st(1) st(4)] st(2) popular_two)
  show ?thesis using plain resp desc occ by (simp add: st(2))
qed

text \<open>
  Claim C1 as stated fails on a submission that lists a date twice: the submission is
  accepted and stored, one entry contains the date, and the read route reports the
  count 2.
\<close>

theorem date_listed_twice_counts_twice:
  "stored (snd (post_poll_user_dates ascii_toLowerCase (Some ''Ann'') (Dates [''2024-04-05'', ''2024-04-05''])
                  1700000000000 (holding initialData)))
     = Some (Json twice_doc)
   \<and> fst (get_poll (holding twice_doc))
     = (200, Poll twice_doc (Some [\<lparr>date = ''2024-04-05'', count = 2\<rparr>]))
   \<and> voters_for ''2024-04-05'' (the (userVotes twice_doc)) = 1"
proof -
  have st: "stored (holding initialData) = Some (Json initialData)"
    "userVotes initialData = Some []" "no_fault 2 (faults (holding initialData))"
    by (simp_all add: holding_def initialData_def)
  have a: "stored (snd (post_poll_user_dates ascii_toLowerCase (Some ''Ann'') (Dates [''2024-04-05'', ''2024-04-05''])
                  1700000000000 (holding initialData)))
     = Some (Json twice_doc)"
    by (simp add: post_poll_user_dates_ok [OF st(1) st(2) _ _ st(3)] submit_new toString_sample
        twice_doc_def)
  have st2: "stored (holding twice_doc) = Some (Json twice_doc)"
    "no_fault 1 (faults (holding twice_doc))"
    by (simp_all add: holding_def)
  have ut: "userVotes twice_doc
              = Some [\<lparr>vote_id = ''1700000000000'', userName = ''Ann'',
                       dates = [''2024-04-05'', ''2024-04-05'']\<rparr>]"
    by (simp add: twice_doc_def)
  have b: "fst (get_poll (holding twice_doc))
     = (200, Poll twice_doc (Some [\<lparr>date = ''2024-04-05'', count = 2\<rparr>]))"
    by (simp add: get_poll_ok [OF st2] ut popular_twice)
  have c: "voters_for ''2024-04-05'' (the (userVotes twice_doc)) = 1"
    by (simp add: ut voters_for_def)
  show ?thesis using a b c by (intro conjI)
qed

subsection \<open>The response of the read route\<close>

text \<open>
  Claim C3, as amended.  For a stored document and a read that the store answers, the
  response of \<open>GET /poll\<close> is the whole document, with \<open>popularDates\<close> attached when
  \<open>userVotes\<close> is non-empty and without it when \<open>userVotes\<close> is empty or missing;
  the stored value stays the document as it was, and no write call is made.
\<close>

theorem get_poll_response:
  assumes "stored w = Some (Json d)" and "no_fault 1 (faults w)"
  shows "(\<forall>uvs. userVotes d = Some uvs \<and> uvs \<noteq> [] \<longrightarrow>
            fst (get_poll w) = (200, Poll d (Some (popularDates uvs))))
         \<and> (userVotes d = Some [] \<or> userVotes d = None \<longrightarrow>
            fst (get_poll w) = (200, Poll d None))
         \<and> stored (snd (get_poll w)) = Some (Json d)
         \<and> trace (snd (get_poll w)) = trace w @ [Get]"
  using assms by (auto simp add: get_poll_ok)

theorem get_poll_response_witness:
  "fst (get_poll (holding two_doc))
     = (200, Poll two_doc (Some [\<lparr>date = ''2024-04-05'', count = 2\<rparr>,
                                   \<lparr>date = ''2024-04-12'', count = 1\<rparr>]))
   \<and> fst (get_poll (holding old_doc)) = (200, Poll old_doc None)
   \<and> stored (snd (get_poll (holding two_doc))) = Some (Json two_doc)
   \<and> trace (snd (get_poll (holding two_doc))) = [Get]"
proof -
  have st: "stored (holding two_doc) = Some (Json two_doc)" "no_fault 1 (faults (holding two_doc))"
    "stored (holding old_doc) = Some (Json old_doc)" "no_fault 1 (faults (holding old_doc))"
    by (simp_all add: holding_def)
  show ?thesis
    using get_poll_response [OF st(1) st(2)] get_poll_response [OF st(3) st(4)]
    by (simp add: two_doc_def old_doc_def popular_two holding_def)
qed

text \<open>
  Claim C3 as stated fails on the default document, whose \<open>userVotes\<close> is empty: the
  response carries no \<open>popularDates\<close>.
\<close>

theorem get_poll_without_popularDates:
  "userVotes initialData = Some []
   \<and> fst (get_poll (holding initialData)) = (200, Poll initialData None)"
  by (simp add: get_poll_def redisClient_get_eq holding_def initialData_def)

end
